theory Spec2Isabelle
  imports Main "HOL-Library.Sublist"
begin

section \<open>JavaScript arrays used as hashes\<close>

text \<open>
  Both variants of the command line tool keep their registries in array literals
  (\<^verbatim>\<open>exportedTasks = []\<close>, \<^verbatim>\<open>exportedTasksNamespaces = []\<close>,
  \<^verbatim>\<open>taskNamespacesToExpand = []\<close>) and address them with string keys.  A read
  \<^verbatim>\<open>arr[k]\<close> therefore sees, in this order, the own properties stored under string
  keys, the array's own \<^verbatim>\<open>length\<close>, and whatever \<^verbatim>\<open>Array.prototype\<close> and
  \<^verbatim>\<open>Object.prototype\<close> provide.  The model keeps the own enumerable properties in
  creation order together with the length.
\<close>

record 'v js_array =
  own_props :: "(string \<times> 'v) list"
  array_length :: nat

definition empty_array :: "'v js_array" where
  "empty_array = \<lparr>own_props = [], array_length = 0\<rparr>"

text \<open>
  Property names an array inherits from \<^verbatim>\<open>Array.prototype\<close> and
  \<^verbatim>\<open>Object.prototype\<close>.  Each of them is bound to a function or an object, hence
  truthy.  The list is the union over the editions from ECMAScript 2018 (the oldest that
  runs the sources: they use object spread and async iteration) to ECMAScript 2023, so a
  name outside the list is inherited on none of these runtimes; the last nine names
  (\<^verbatim>\<open>flat\<close> to \<^verbatim>\<open>with\<close>) exist on the newer runtimes only.
\<close>

definition arrayPrototypeNames :: "string list" where
  "arrayPrototypeNames =
    [''constructor'', ''concat'', ''copyWithin'', ''fill'', ''find'', ''findIndex'',
     ''lastIndexOf'', ''pop'', ''push'', ''reverse'', ''shift'', ''unshift'', ''slice'',
     ''sort'', ''splice'', ''includes'', ''indexOf'', ''join'', ''keys'', ''entries'',
     ''values'', ''forEach'', ''filter'', ''map'', ''every'', ''some'', ''reduce'',
     ''reduceRight'', ''toLocaleString'', ''toString'', ''hasOwnProperty'',
     ''isPrototypeOf'', ''propertyIsEnumerable'', ''valueOf'', ''__defineGetter__'',
     ''__defineSetter__'', ''__lookupGetter__'', ''__lookupSetter__'', ''__proto__'',
     ''flat'', ''flatMap'', ''at'', ''findLast'', ''findLastIndex'', ''toReversed'',
     ''toSorted'', ''toSpliced'', ''with'']"

definition is_digit :: "char \<Rightarrow> bool" where
  "is_digit c = (c \<in> set ''0123456789'')"

definition decimal_val :: "string \<Rightarrow> int" where
  "decimal_val s = foldl (\<lambda>n c. 10 * n + (of_char c - 48)) 0 s"

text \<open>An array index is the canonical decimal form of an integer below \<open>2^32 - 1\<close>.\<close>

definition is_array_index :: "string \<Rightarrow> bool" where
  "is_array_index s =
     (s \<noteq> [] \<and> list_all is_digit s \<and> (if hd s = CHR ''0'' then s = ''0'' else True)
      \<and> decimal_val s < 4294967295)"

text \<open>
  \<^verbatim>\<open>arr[k]\<close> in a boolean context.  \<open>truthy\<close> says which stored values are truthy.
\<close>

definition js_truthy_at :: "('v \<Rightarrow> bool) \<Rightarrow> 'v js_array \<Rightarrow> string \<Rightarrow> bool" where
  "js_truthy_at truthy a k =
     (case map_of (own_props a) k of
        Some v \<Rightarrow> truthy v
      | None \<Rightarrow> if k = ''length'' then array_length a \<noteq> 0 else k \<in> set arrayPrototypeNames)"

fun assign_prop :: "string \<Rightarrow> 'v \<Rightarrow> (string \<times> 'v) list \<Rightarrow> (string \<times> 'v) list" where
  "assign_prop k v [] = [(k, v)]"
| "assign_prop k v ((k', v') # r) =
     (if k' = k then (k, v) # r else (k', v') # assign_prop k v r)"

datatype js_exception = RangeError | TypeError

text \<open>
  \<^verbatim>\<open>arr[k] = v\<close>.  Writing \<^verbatim>\<open>length\<close> goes through the array's length setter:
  \<open>to_len v\<close> is the length the value converts to, or \<open>None\<close> when it is not a valid
  length and the write throws a RangeError; a valid length drops the elements at and
  above it.  Writing \<^verbatim>\<open>__proto__\<close> creates no own property (with a primitive value the
  write is ignored; the sources never reach it with an object, since the read of
  \<^verbatim>\<open>__proto__\<close> that guards every such write is truthy).  An array index extends the
  length.
\<close>

definition js_put :: "('v \<Rightarrow> nat option) \<Rightarrow> 'v js_array \<Rightarrow> string \<Rightarrow> 'v \<Rightarrow> js_exception + 'v js_array" where
  "js_put to_len a k v =
     (if k = ''length'' then
        (case to_len v of
           None \<Rightarrow> Inl RangeError
         | Some n \<Rightarrow>
             Inr \<lparr>own_props =
                    filter (\<lambda>(k', _). \<not> (is_array_index k' \<and> int n \<le> decimal_val k')) (own_props a),
                  array_length = n\<rparr>)
      else if k = ''__proto__'' then Inr a
      else Inr \<lparr>own_props = assign_prop k v (own_props a),
                array_length =
                  (if is_array_index k then max (array_length a) (Suc (nat (decimal_val k)))
                   else array_length a)\<rparr>)"

text \<open>
  \<^verbatim>\<open>Object.entries(arr)\<close>: array indices in ascending numeric order, then the other
  string keys in creation order.
\<close>

definition js_entries :: "'v js_array \<Rightarrow> (string \<times> 'v) list" where
  "js_entries a =
     sort_key (\<lambda>(k, _). decimal_val k) (filter (\<lambda>(k, _). is_array_index k) (own_props a))
     @ filter (\<lambda>(k, _). \<not> is_array_index k) (own_props a)"

text \<open>
  The conversion to a string of a value that is a string or \<^verbatim>\<open>undefined\<close>, as a
  property key and the replacement text of \<^verbatim>\<open>replace\<close> undergo it: \<^verbatim>\<open>undefined\<close>
  becomes the string \<^verbatim>\<open>"undefined"\<close>.
\<close>

definition js_ToString :: "string option \<Rightarrow> string" where
  "js_ToString n = (case n of None \<Rightarrow> ''undefined'' | Some s \<Rightarrow> s)"

text \<open>\<^verbatim>\<open>new Set(xs)\<close> keeps the first occurrence of each element, in insertion order.\<close>

fun set_add :: "'a list \<Rightarrow> 'a \<Rightarrow> 'a list" where
  "set_add s x = (if x \<in> set s then s else s @ [x])"

definition new_Set :: "'a list \<Rightarrow> 'a list" where
  "new_Set xs = foldl set_add [] xs"


section \<open>The task registry\<close>

text \<open>
  A task entry as a task-definition module exports it.  The \<^verbatim>\<open>run\<close> operation drives
  the browser and plays no role in registration or normalization.
\<close>

record task_entry =
  namespace :: "string option"
  description :: string

record registry =
  exportedTasks :: "task_entry js_array"
  exportedTasksNamespaces :: "string option js_array"

definition empty_registry :: registry where
  "empty_registry = \<lparr>exportedTasks = empty_array, exportedTasksNamespaces = empty_array\<rparr>"

text \<open>Every path that ends in \<^verbatim>\<open>process.exit(1)\<close>, or in an exception nobody catches.\<close>

datatype fatal =
    TaskAlreadyExists string
  | NoExportedTasks string
  | TaskDirMissing string
  | TaskDoesNotExist string
  | FailedToRemove string string
  | TasksDirDoesNotExist string
  | OutputDirCreateFailed string
  | InvalidExts string
  | InvalidExtPath string string
  | ProfilesDirCreateFailed string
  | ProfileDirCreateFailed string
  | Uncaught js_exception

definition exit_status :: "fatal \<Rightarrow> nat" where
  "exit_status f = 1"

definition string_truthy :: "string option \<Rightarrow> bool" where
  "string_truthy v = (case v of None \<Rightarrow> False | Some s \<Rightarrow> s \<noteq> [])"

text \<open>\<^verbatim>\<open>exportedTasks[k]\<close> and \<^verbatim>\<open>exportedTasksNamespaces[k]\<close> as conditions.\<close>

definition task_truthy :: "registry \<Rightarrow> string \<Rightarrow> bool" where
  "task_truthy reg k = js_truthy_at (\<lambda>_. True) (exportedTasks reg) k"

definition namespace_truthy :: "registry \<Rightarrow> string \<Rightarrow> bool" where
  "namespace_truthy reg k = js_truthy_at string_truthy (exportedTasksNamespaces reg) k"

text \<open>
  The two writes of the registration.  A task entry is an object and the namespace stored
  under \<^verbatim>\<open>length\<close> is the string \<^verbatim>\<open>"length"\<close>: neither converts to an array length.
\<close>

definition put_task :: "registry \<Rightarrow> string \<Rightarrow> task_entry \<Rightarrow> fatal + registry" where
  "put_task reg key v =
     (case js_put (\<lambda>_. None) (exportedTasks reg) key v of
        Inl e \<Rightarrow> Inl (Uncaught e)
      | Inr a \<Rightarrow> Inr (reg\<lparr>exportedTasks := a\<rparr>))"

definition put_namespace :: "registry \<Rightarrow> string option \<Rightarrow> fatal + registry" where
  "put_namespace reg n =
     (case js_put (\<lambda>_. None) (exportedTasksNamespaces reg) (js_ToString n) n of
        Inl e \<Rightarrow> Inl (Uncaught e)
      | Inr a \<Rightarrow> Inr (reg\<lparr>exportedTasksNamespaces := a\<rparr>))"

text \<open>
  The body of the loop over one module's exports (src/unnamed/part_000, lines 137-149):
  the guard reads \<^verbatim>\<open>exportedTasks\<close> twice, under the entry's key and under its
  namespace, and the namespace is recorded only when it is truthy.
\<close>

definition register_task :: "registry \<Rightarrow> string \<times> task_entry \<Rightarrow> fatal + registry" where
  "register_task reg e =
     (let key = fst e; v = snd e; n = namespace v in
      if task_truthy reg key \<or> task_truthy reg (js_ToString n) then Inl (TaskAlreadyExists key)
      else
        (case (if string_truthy n then put_namespace reg n else Inr reg) of
           Inl f \<Rightarrow> Inl f
         | Inr reg' \<Rightarrow> put_task reg' key v))"

fun register_module :: "registry \<Rightarrow> (string \<times> task_entry) list \<Rightarrow> fatal + registry" where
  "register_module reg [] = Inr reg"
| "register_module reg (e # es) =
     (case register_task reg e of Inl f \<Rightarrow> Inl f | Inr reg' \<Rightarrow> register_module reg' es)"

text \<open>The test \<^verbatim>\<open>/\.js$/\<close> on a file name.\<close>

definition is_js_file :: "string \<Rightarrow> bool" where
  "is_js_file file = (drop (length file - 3) file = ''.js'')"

text \<open>
  The loop over the directory listing.  Each listed file comes with what
  \<^verbatim>\<open>require\<close> returns for it, the module's exports in their own key order.
\<close>

fun register_files ::
  "registry \<Rightarrow> (string \<times> (string \<times> task_entry) list) list \<Rightarrow> fatal + registry" where
  "register_files reg [] = Inr reg"
| "register_files reg ((file, modExports) # fs) =
     (if is_js_file file then
        (case register_module reg modExports of
           Inl f \<Rightarrow> Inl f
         | Inr reg' \<Rightarrow> register_files reg' fs)
      else register_files reg fs)"

text \<open>
  \<^verbatim>\<open>parseTaskFiles\<close> of src/unnamed/part_000: \<open>tasksDir\<close> is the resolved
  \<^verbatim>\<open>config.tasksDir\<close>, \<open>listing\<close> the directory's files with their exports.  The
  registries are empty when it is called (once per command).
\<close>

definition parseTaskFiles ::
  "string \<Rightarrow> (string \<times> (string \<times> task_entry) list) list \<Rightarrow> fatal + registry" where
  "parseTaskFiles tasksDir listing =
     (case register_files empty_registry listing of
        Inl f \<Rightarrow> Inl f
      | Inr reg \<Rightarrow>
          if length (js_entries (exportedTasks reg)) = 0 then Inl (NoExportedTasks tasksDir)
          else Inr reg)"

text \<open>
  The older variant in src/pwptr.js (lines 47-68): it checks that the task directory
  exists, records the namespace unconditionally (an absent namespace is stored as
  \<^verbatim>\<open>undefined\<close> under the key \<^verbatim>\<open>"undefined"\<close>) and accepts an empty registry.
\<close>

definition register_task_pwptr :: "registry \<Rightarrow> string \<times> task_entry \<Rightarrow> fatal + registry" where
  "register_task_pwptr reg e =
     (let key = fst e; v = snd e; n = namespace v in
      if task_truthy reg key \<or> task_truthy reg (js_ToString n) then Inl (TaskAlreadyExists key)
      else
        (case put_namespace reg n of
           Inl f \<Rightarrow> Inl f
         | Inr reg' \<Rightarrow> put_task reg' key v))"

fun register_module_pwptr :: "registry \<Rightarrow> (string \<times> task_entry) list \<Rightarrow> fatal + registry" where
  "register_module_pwptr reg [] = Inr reg"
| "register_module_pwptr reg (e # es) =
     (case register_task_pwptr reg e of
        Inl f \<Rightarrow> Inl f
      | Inr reg' \<Rightarrow> register_module_pwptr reg' es)"

fun register_files_pwptr ::
  "registry \<Rightarrow> (string \<times> (string \<times> task_entry) list) list \<Rightarrow> fatal + registry" where
  "register_files_pwptr reg [] = Inr reg"
| "register_files_pwptr reg ((file, modExports) # fs) =
     (if is_js_file file then
        (case register_module_pwptr reg modExports of
           Inl f \<Rightarrow> Inl f
         | Inr reg' \<Rightarrow> register_files_pwptr reg' fs)
      else register_files_pwptr reg fs)"

definition parseTaskFiles_pwptr ::
  "string \<Rightarrow> bool \<Rightarrow> (string \<times> (string \<times> task_entry) list) list \<Rightarrow> fatal + registry" where
  "parseTaskFiles_pwptr taskDir taskDirExists listing =
     (if \<not> taskDirExists then Inl (TaskDirMissing taskDir)
      else register_files_pwptr empty_registry listing)"


section \<open>The task-set normalizer\<close>

record normalized =
  taskSet :: "string list"
  warned :: bool

definition flag_truthy :: "bool js_array \<Rightarrow> string \<Rightarrow> bool" where
  "flag_truthy a k = js_truthy_at (\<lambda>b. b) a k"

text \<open>
  The first loop of \<^verbatim>\<open>normalizeTaskSet\<close> (lines 161-171 of src/unnamed/part_000, the
  same text in src/pwptr.js).  \<^verbatim>\<open>taskNamespacesToExpand[t] = true\<close> under the key
  \<^verbatim>\<open>length\<close> sets the length to 1.
\<close>

fun classify_tasks ::
  "registry \<Rightarrow> bool js_array \<Rightarrow> string list \<Rightarrow> string list \<Rightarrow> fatal + (bool js_array \<times> string list)" where
  "classify_tasks reg taskNamespacesToExpand tasksToRun [] =
     Inr (taskNamespacesToExpand, tasksToRun)"
| "classify_tasks reg taskNamespacesToExpand tasksToRun (t # ts) =
     (if \<not> task_truthy reg t \<and> \<not> namespace_truthy reg t then Inl (TaskDoesNotExist t)
      else if namespace_truthy reg t then
        (case js_put (\<lambda>_. Some 1) taskNamespacesToExpand t True of
           Inl e \<Rightarrow> Inl (Uncaught e)
         | Inr a \<Rightarrow> classify_tasks reg a tasksToRun ts)
      else classify_tasks reg taskNamespacesToExpand (tasksToRun @ [t]) ts)"

text \<open>The second loop (lines 175-179): one pass over all exported tasks.\<close>

definition expand_namespaces :: "registry \<Rightarrow> bool js_array \<Rightarrow> string list" where
  "expand_namespaces reg taskNamespacesToExpand =
     map fst
       (filter (\<lambda>(key, v). flag_truthy taskNamespacesToExpand (js_ToString (namespace v)))
          (js_entries (exportedTasks reg)))"

definition normalizeTaskSet :: "registry \<Rightarrow> string list \<Rightarrow> fatal + normalized" where
  "normalizeTaskSet reg tasks =
     (case classify_tasks reg empty_array [] tasks of
        Inl f \<Rightarrow> Inl f
      | Inr (taskNamespacesToExpand, direct) \<Rightarrow>
          (let tasksToRun = direct @ expand_namespaces reg taskNamespacesToExpand;
               s = new_Set tasksToRun
           in Inr \<lparr>taskSet = s, warned = (length s \<noteq> length tasks)\<rparr>))"

text \<open>
  The start of the \<^verbatim>\<open>run\<close> command's handler (lines 280-282): build the registry, then
  normalize the requested tasks.
\<close>

definition run_tasks ::
  "string \<Rightarrow> (string \<times> (string \<times> task_entry) list) list \<Rightarrow> string list \<Rightarrow> fatal + normalized" where
  "run_tasks tasksDir listing tasks =
     (case parseTaskFiles tasksDir listing of
        Inl f \<Rightarrow> Inl f
      | Inr reg \<Rightarrow> normalizeTaskSet reg tasks)"

text \<open>A task entry with the given namespace, for concrete registries.\<close>

definition task :: "string option \<Rightarrow> task_entry" where
  "task n = \<lparr>namespace = n, description = ''''\<rparr>"


section \<open>Deleting a cookie file\<close>

text \<open>
  \<^verbatim>\<open>delFile\<close> of src/pwptr.js (lines 26-45).  \<open>answer\<close> is the line read from the
  terminal (\<open>None\<close> when the input ended), \<open>unlinkSync\<close> the file system's answer to the
  deletion: \<open>None\<close> when it succeeds, otherwise the \<^verbatim>\<open>code\<close> of the error it throws.
  The result is what was printed with \<^verbatim>\<open>console.log\<close>, or the fatal exit.  The success
  message is a plain string in the source, so \<^verbatim>\<open>${file}\<close> is printed as it stands.
\<close>

definition delFile ::
  "(string \<Rightarrow> string option) \<Rightarrow> string \<Rightarrow> string \<Rightarrow> string option \<Rightarrow> fatal + string list" where
  "delFile unlinkSync file confirmMsg answer =
     (let asked = [confirmMsg @ [CHR 0x0A] @ ''(y/n): ''] in
      if answer = Some ''y'' then
        (case unlinkSync file of
           None \<Rightarrow> Inr (asked @ [''Successfully removed ${file}''])
         | Some code \<Rightarrow>
             if code = ''ENOENT'' then Inr (asked @ [''Does not exist or already removed.''])
             else Inl (FailedToRemove file code))
      else Inr asked)"


section \<open>Resolving configuration paths\<close>

text \<open>
  What the process reads from its surroundings: \<^verbatim>\<open>process.env.HOME\<close> (possibly
  undefined), \<^verbatim>\<open>__dirname\<close> and the working directory.
\<close>

record environment =
  HOME :: "string option"
  dirname :: string
  cwd :: string

text \<open>
  The first occurrence of \<open>pat\<close> in a string: the text that precedes it and the text
  that follows it.
\<close>

fun split_first :: "string \<Rightarrow> string \<Rightarrow> (string \<times> string) option" where
  "split_first pat [] = (if pat = [] then Some ([], []) else None)"
| "split_first pat (c # cs) =
     (if prefix pat (c # cs) then Some ([], drop (length pat) (c # cs))
      else (case split_first pat cs of
              None \<Rightarrow> None
            | Some (front, rest) \<Rightarrow> Some (c # front, rest)))"

text \<open>
  The replacement text of \<^verbatim>\<open>String.prototype.replace\<close> for a string pattern: \<^verbatim>\<open>$$\<close>
  stands for a dollar sign, \<^verbatim>\<open>$&\<close> for the matched text, \<^verbatim>\<open>$`\<close> and \<^verbatim>\<open>$'\<close> for
  the text around the match; there are no captures, so every other use of the
  dollar sign stands for itself.
\<close>

fun getSubstitution :: "string \<Rightarrow> string \<Rightarrow> string \<Rightarrow> string \<Rightarrow> string" where
  "getSubstitution matched front rest (c # d # r) =
     (if c = CHR ''$'' \<and> d = CHR ''$'' then CHR ''$'' # getSubstitution matched front rest r
      else if c = CHR ''$'' \<and> d = CHR ''&'' then matched @ getSubstitution matched front rest r
      else if c = CHR ''$'' \<and> d = CHR 0x60 then front @ getSubstitution matched front rest r
      else if c = CHR ''$'' \<and> d = CHR 0x27 then rest @ getSubstitution matched front rest r
      else c # getSubstitution matched front rest (d # r))"
| "getSubstitution matched front rest r = r"

text \<open>\<^verbatim>\<open>str.replace(pat, replacement)\<close> with a string pattern: the first occurrence only.\<close>

definition js_replace :: "string \<Rightarrow> string \<Rightarrow> string \<Rightarrow> string" where
  "js_replace str pat replacement =
     (case split_first pat str of
        None \<Rightarrow> str
      | Some (front, rest) \<Rightarrow> front @ getSubstitution pat front rest replacement @ rest)"

text \<open>
  \<^verbatim>\<open>path.resolve\<close> of Node.js on POSIX, for one argument: a relative argument is taken
  from the working directory, the path is cut at the slashes, empty and \<^verbatim>\<open>.\<close> segments
  are dropped, a \<^verbatim>\<open>..\<close> segment removes the segment that precedes it (none at the root), and
  the rest is joined below the root.
\<close>

fun split_path :: "string \<Rightarrow> string list" where
  "split_path [] = [[]]"
| "split_path (c # cs) =
     (if c = CHR ''/'' then [] # split_path cs
      else (case split_path cs of
              [] \<Rightarrow> [[c]]
            | seg # segs \<Rightarrow> (c # seg) # segs))"

fun normalize_segments :: "string list \<Rightarrow> string list \<Rightarrow> string list" where
  "normalize_segments kept [] = rev kept"
| "normalize_segments kept (seg # segs) =
     (if seg = [] \<or> seg = ''.'' then normalize_segments kept segs
      else if seg = ''..'' then normalize_segments (case kept of [] \<Rightarrow> [] | _ # up \<Rightarrow> up) segs
      else normalize_segments (seg # kept) segs)"

definition join_absolute :: "string list \<Rightarrow> string" where
  "join_absolute segs = (if segs = [] then ''/'' else concat (map (\<lambda>seg. CHR ''/'' # seg) segs))"

definition path_resolve :: "string \<Rightarrow> string \<Rightarrow> string" where
  "path_resolve wd arg =
     join_absolute
       (normalize_segments [] (split_path (if prefix ''/'' arg then arg else wd @ ''/'' @ arg)))"

text \<open>\<^verbatim>\<open>configDir = path.resolve(`${__dirname}/../..`)\<close> and the configuration file.\<close>

definition configDir :: "environment \<Rightarrow> string" where
  "configDir env = path_resolve (cwd env) (dirname env @ ''/../..'')"

definition configFile :: "environment \<Rightarrow> string" where
  "configFile env = configDir env @ ''/.pwptr.json''"

text \<open>The tests \<^verbatim>\<open>/^(\.|\/)/\<close> and \<^verbatim>\<open>/^\.{1,2}\//\<close>.\<close>

definition starts_with_dot_or_slash :: "string \<Rightarrow> bool" where
  "starts_with_dot_or_slash p = (prefix ''.'' p \<or> prefix ''/'' p)"

definition is_relative_path :: "string \<Rightarrow> bool" where
  "is_relative_path p = (prefix ''./'' p \<or> prefix ''../'' p)"

text \<open>
  Lines 34-39 of \<^verbatim>\<open>resolveConfigPath\<close>: a path that starts with neither a dot nor a
  slash gets \<^verbatim>\<open>./\<close> in front, and a path that starts with \<^verbatim>\<open>./\<close> or \<^verbatim>\<open>../\<close> is
  resolved below the configuration directory.
\<close>

definition resolve_relative :: "environment \<Rightarrow> string \<Rightarrow> string" where
  "resolve_relative env p =
     (let p' = (if \<not> starts_with_dot_or_slash p then ''./'' @ p else p) in
      if is_relative_path p' then path_resolve (cwd env) (configDir env @ ''/'' @ p') else p')"

text \<open>
  \<^verbatim>\<open>resolveConfigPath\<close> (src/unnamed/part_000, lines 32-41).  An undefined
  \<^verbatim>\<open>process.env.HOME\<close> is converted to the string \<^verbatim>\<open>"undefined"\<close> by the replacement.
\<close>

definition resolveConfigPath :: "environment \<Rightarrow> string \<Rightarrow> string" where
  "resolveConfigPath env p = resolve_relative env (js_replace p ''{HOME}'' (js_ToString (HOME env)))"


section \<open>Resolving the configuration\<close>

text \<open>
  The configuration file is a JSON document.  Its three directories are strings when
  present, and \<^verbatim>\<open>profiles\<close> maps a profile name to an object of options; the value of
  an option is any JSON value (the payload of a number is never inspected).
\<close>

datatype json =
    JNull
  | JBool bool
  | JNumber int
  | JString string
  | JArray "json list"
  | JObject "(string \<times> json) list"

type_synonym profile_options = "(string \<times> json) list"

record raw_config =
  raw_tasksDir :: "string option"
  raw_tasksOutputDir :: "string option"
  raw_profilesDir :: "string option"
  raw_profiles :: "(string \<times> profile_options) list option"

record config =
  tasksDir :: string
  tasksOutputDir :: string
  profilesDir :: string
  profiles :: "(string \<times> profile_options) list"

definition defaultProfileOpts :: profile_options where
  "defaultProfileOpts =
     [(''exts'', JArray []), (''runByDefault'', JBool False), (''devtools'', JBool False),
      (''screenshot'', JBool False), (''autoclose'', JBool True)]"

text \<open>Object spread \<^verbatim>\<open>{...base, ...over}\<close>.\<close>

definition spread :: "profile_options \<Rightarrow> profile_options \<Rightarrow> profile_options" where
  "spread base over = foldl (\<lambda>acc (k, v). assign_prop k v acc) base over"

text \<open>
  The file system, as far as the script uses it: \<^verbatim>\<open>fs.existsSync\<close>, and
  \<^verbatim>\<open>fs.mkdirSync\<close>, which yields the new state or throws (\<open>None\<close>).
\<close>

record 'fs fs_ops =
  existsSync :: "'fs \<Rightarrow> string \<Rightarrow> bool"
  mkdirSync :: "'fs \<Rightarrow> string \<Rightarrow> 'fs option"

text \<open>
  The callback of \<^verbatim>\<open>paths.forEach\<close> (lines 93-101): every element is resolved and must
  exist; it is replaced by its resolved path.  An element that is not a string has no
  \<^verbatim>\<open>replace\<close> method, and the call throws.
\<close>

fun resolve_exts ::
  "environment \<Rightarrow> 'fs fs_ops \<Rightarrow> 'fs \<Rightarrow> string \<Rightarrow> json list \<Rightarrow> fatal + json list" where
  "resolve_exts env ops fs key [] = Inr []"
| "resolve_exts env ops fs key (JString p # ps) =
     (let p' = resolveConfigPath env p in
      if \<not> existsSync ops fs p' then Inl (InvalidExtPath key p')
      else (case resolve_exts env ops fs key ps of
              Inl f \<Rightarrow> Inl f
            | Inr ps' \<Rightarrow> Inr (JString p' # ps')))"
| "resolve_exts env ops fs key (_ # ps) = Inl (Uncaught TypeError)"

text \<open>
  One round of the loop that validates the extensions (lines 86-102).  The test
  \<^verbatim>\<open>typeof paths.forEach !== 'function'\<close> reads a property of \<^verbatim>\<open>paths\<close>: on
  \<^verbatim>\<open>null\<close> (and on a missing value) the read itself throws a TypeError; a boolean, a
  number, a string and an object parsed from JSON have no such function; an array has.
\<close>

definition validate_profile ::
  "environment \<Rightarrow> 'fs fs_ops \<Rightarrow> 'fs \<Rightarrow> string \<times> profile_options \<Rightarrow> fatal + (string \<times> profile_options)" where
  "validate_profile env ops fs kv =
     (let key = fst kv; opts = snd kv in
      case map_of opts ''exts'' of
        None \<Rightarrow> Inl (Uncaught TypeError)
      | Some JNull \<Rightarrow> Inl (Uncaught TypeError)
      | Some (JArray paths) \<Rightarrow>
          (case resolve_exts env ops fs key paths of
             Inl f \<Rightarrow> Inl f
           | Inr paths' \<Rightarrow> Inr (key, assign_prop ''exts'' (JArray paths') opts))
      | Some _ \<Rightarrow> Inl (InvalidExts key))"

fun validate_profiles ::
  "environment \<Rightarrow> 'fs fs_ops \<Rightarrow> 'fs \<Rightarrow> (string \<times> profile_options) list \<Rightarrow>
     fatal + (string \<times> profile_options) list" where
  "validate_profiles env ops fs [] = Inr []"
| "validate_profiles env ops fs (kv # kvs) =
     (case validate_profile env ops fs kv of
        Inl f \<Rightarrow> Inl f
      | Inr kv' \<Rightarrow>
          (case validate_profiles env ops fs kvs of
             Inl f \<Rightarrow> Inl f
           | Inr kvs' \<Rightarrow> Inr (kv' # kvs')))"

text \<open>The loop that creates one directory per profile (lines 121-131).\<close>

fun make_profile_dirs :: "'fs fs_ops \<Rightarrow> 'fs \<Rightarrow> string \<Rightarrow> string list \<Rightarrow> fatal + 'fs" where
  "make_profile_dirs ops fs dir [] = Inr fs"
| "make_profile_dirs ops fs dir (key # keys) =
     (let profileDir = dir @ ''/'' @ key in
      if \<not> existsSync ops fs profileDir then
        (case mkdirSync ops fs profileDir of
           None \<Rightarrow> Inl (ProfileDirCreateFailed profileDir)
         | Some fs' \<Rightarrow> make_profile_dirs ops fs' dir keys)
      else make_profile_dirs ops fs dir keys)"

text \<open>
  The script between the definition of \<^verbatim>\<open>resolveConfigPath\<close> and \<^verbatim>\<open>parseTaskFiles\<close>
  (src/unnamed/part_000, lines 44-131).  \<open>raw\<close> is the content of the configuration
  file, with every field absent when there is no file.  The four values are computed from
  the environment and \<open>raw\<close> alone and are bound first; the checks and the creation of
  directories follow in the order of the source.  The message about the output directory
  prints \<^verbatim>\<open>config.tasksDir\<close>.
\<close>

definition setup_config ::
  "environment \<Rightarrow> 'fs fs_ops \<Rightarrow> 'fs \<Rightarrow> raw_config \<Rightarrow> fatal + (config \<times> 'fs)" where
  "setup_config env ops fs0 raw =
     (let tasksDir1 =
            resolveConfigPath env
              (case raw_tasksDir raw of None \<Rightarrow> configDir env @ ''/tasks'' | Some d \<Rightarrow> d);
          outputDir =
            resolveConfigPath env
              (case raw_tasksOutputDir raw of None \<Rightarrow> tasksDir1 @ ''/output'' | Some d \<Rightarrow> d);
          merged =
            (case raw_profiles raw of
               None \<Rightarrow> [(''default'', spread defaultProfileOpts [(''runByDefault'', JBool True)])]
             | Some ps \<Rightarrow> map (\<lambda>(key, v). (key, spread defaultProfileOpts v)) ps);
          profilesDir1 =
            resolveConfigPath env
              (case raw_profilesDir raw of
                 None \<Rightarrow> tasksDir1 @ ''../.chrome-profiles''
               | Some d \<Rightarrow> d)
      in
      if \<not> existsSync ops fs0 tasksDir1 then Inl (TasksDirDoesNotExist tasksDir1)
      else
        (case (if \<not> existsSync ops fs0 outputDir then mkdirSync ops fs0 outputDir else Some fs0) of
           None \<Rightarrow> Inl (OutputDirCreateFailed tasksDir1)
         | Some fs1 \<Rightarrow>
             (case validate_profiles env ops fs1 merged of
                Inl f \<Rightarrow> Inl f
              | Inr profiles1 \<Rightarrow>
                  (case (if \<not> existsSync ops fs1 profilesDir1 then mkdirSync ops fs1 profilesDir1
                         else Some fs1) of
                     None \<Rightarrow> Inl (ProfilesDirCreateFailed profilesDir1)
                   | Some fs2 \<Rightarrow>
                       (case make_profile_dirs ops fs2 profilesDir1 (map fst profiles1) of
                          Inl f \<Rightarrow> Inl f
                        | Inr fs3 \<Rightarrow>
                            Inr (\<lparr>tasksDir = tasksDir1, tasksOutputDir = outputDir,
                                  profilesDir = profilesDir1, profiles = profiles1\<rparr>, fs3))))))"

text \<open>
  A small file system for concrete runs: the directories that exist, as a list.  A
  directory can be created when it is new and its parent exists.
\<close>

definition parent_dir :: "string \<Rightarrow> string" where
  "parent_dir p = rev (drop 1 (dropWhile (\<lambda>c. c \<noteq> CHR ''/'') (rev p)))"

definition listed_dirs :: "(string list) fs_ops" where
  "listed_dirs =
     \<lparr>existsSync = (\<lambda>fs p. p \<in> set fs),
      mkdirSync = (\<lambda>fs p. if p \<notin> set fs \<and> parent_dir p \<in> set fs then Some (fs @ [p]) else None)\<rparr>"

definition no_config_file :: raw_config where
  "no_config_file =
     \<lparr>raw_tasksDir = None, raw_tasksOutputDir = None, raw_profilesDir = None,
      raw_profiles = None\<rparr>"

definition project_env :: environment where
  "project_env =
     \<lparr>HOME = Some ''/home/u'', dirname = ''/proj/node_modules/pwptr'', cwd = ''/proj''\<rparr>"


section \<open>Ordinary identifiers and the normalizer in the words of the specification\<close>

text \<open>
  An identifier is ordinary when the array machinery treats it like any other string key:
  it is none of the listed names that the prototypes provide, it is not \<^verbatim>\<open>length\<close>
  and it is not an array index.
\<close>

definition plain_key :: "string \<Rightarrow> bool" where
  "plain_key k = (k \<notin> set arrayPrototypeNames \<and> k \<noteq> ''length'' \<and> \<not> is_array_index k)"

text \<open>An array whose own keys are ordinary has the length it was created with.\<close>

definition ordinary_array :: "'v js_array \<Rightarrow> bool" where
  "ordinary_array a = (array_length a = 0 \<and> list_all plain_key (map fst (own_props a)))"

text \<open>
  A registry of ordinary task names and namespaces, as \<^verbatim>\<open>parseTaskFiles\<close> of
  src/unnamed/part_000 builds it: every namespace is stored under its own name, is truthy
  and is not literally called \<^verbatim>\<open>undefined\<close>.
\<close>

definition ordinary_registry :: "registry \<Rightarrow> bool" where
  "ordinary_registry reg =
     (ordinary_array (exportedTasks reg) \<and> ordinary_array (exportedTasksNamespaces reg)
      \<and> list_all (\<lambda>(k, v). case namespace v of None \<Rightarrow> True | Some n \<Rightarrow> plain_key n)
           (own_props (exportedTasks reg))
      \<and> list_all (\<lambda>(k, v). v = Some k \<and> k \<noteq> [] \<and> k \<noteq> ''undefined'')
           (own_props (exportedTasksNamespaces reg)))"

text \<open>An exported entry with an ordinary name and, if it has one, an ordinary namespace.\<close>

definition ordinary_entry :: "string \<times> task_entry \<Rightarrow> bool" where
  "ordinary_entry e =
     (plain_key (fst e)
      \<and> (case namespace (snd e) of None \<Rightarrow> True | Some n \<Rightarrow> plain_key n \<and> n \<noteq> ''undefined''))"

text \<open>The entries that the task-definition modules of a directory export, in scan order.\<close>

definition js_exports :: "(string \<times> (string \<times> task_entry) list) list \<Rightarrow> (string \<times> task_entry) list" where
  "js_exports listing = concat (map snd (filter (\<lambda>(file, _). is_js_file file) listing))"

text \<open>
  The words of the specification: an identifier is a registered task name, a registered
  namespace label, or unknown; the direct names of a request are the identifiers that are
  not namespace labels, in request order; the members of the requested namespaces are the
  tasks, in registry order, whose declared namespace is a requested label.
\<close>

definition registered_task :: "registry \<Rightarrow> string \<Rightarrow> bool" where
  "registered_task reg t = (t \<in> fst ` set (own_props (exportedTasks reg)))"

definition registered_namespace :: "registry \<Rightarrow> string \<Rightarrow> bool" where
  "registered_namespace reg t = (t \<in> fst ` set (own_props (exportedTasksNamespaces reg)))"

definition unknown_identifier :: "registry \<Rightarrow> string \<Rightarrow> bool" where
  "unknown_identifier reg t = (\<not> registered_task reg t \<and> \<not> registered_namespace reg t)"

definition direct_names :: "registry \<Rightarrow> string list \<Rightarrow> string list" where
  "direct_names reg tasks = filter (\<lambda>t. \<not> registered_namespace reg t) tasks"

definition namespace_members :: "registry \<Rightarrow> string list \<Rightarrow> string list" where
  "namespace_members reg tasks =
     map fst
       (filter (\<lambda>(k, v). case namespace v of
                            None \<Rightarrow> False
                          | Some n \<Rightarrow> n \<in> set tasks \<and> registered_namespace reg n)
          (own_props (exportedTasks reg)))"

text \<open>The array of namespaces to expand holds \<^verbatim>\<open>true\<close> under ordinary keys only.\<close>

definition marks :: "bool js_array \<Rightarrow> bool" where
  "marks a = (ordinary_array a \<and> snd ` set (own_props a) \<subseteq> {True})"


text \<open>
  The registry of the specification's examples: \<open>a\<close> and \<open>b\<close> in the namespace \<open>g1\<close>,
  \<open>c\<close> without a namespace.
\<close>

definition demo_registry :: registry where
  "demo_registry =
     \<lparr>exportedTasks =
        \<lparr>own_props = [(''a'', task (Some ''g1'')), (''b'', task (Some ''g1'')), (''c'', task None)],
         array_length = 0\<rparr>,
      exportedTasksNamespaces = \<lparr>own_props = [(''g1'', Some ''g1'')], array_length = 0\<rparr>\<rparr>"


section \<open>The normalizer and the registry on concrete registries\<close>

text \<open>
  C1.  The registry holds \<open>a\<close> and \<open>b\<close> in the namespace \<open>g1\<close> and \<open>c\<close> without a
  namespace; the request is \<open>c, g1\<close>.  The returned set is \<open>c, a, b\<close> in this order, as
  the specification says, and nothing was deduplicated: three names were collected and the
  set holds three.  The warning is printed all the same, since the size of the set is
  compared with the length of the request, which is two.  For the request \<open>a, g1\<close> the
  name \<open>a\<close> is collected twice and deduplicated, and no warning is printed: the set holds
  two names and the request has two entries.
\<close>

theorem normalizeTaskSet_warns_on_expansion_without_duplicates:
  "run_tasks ''/proj/tasks''
     [(''demo.js'', [(''a'', task (Some ''g1'')), (''b'', task (Some ''g1'')), (''c'', task None)])]
     [''c'', ''g1'']
   = Inr \<lparr>taskSet = [''c'', ''a'', ''b''], warned = True\<rparr>
   \<and> run_tasks ''/proj/tasks''
     [(''demo.js'', [(''a'', task (Some ''g1'')), (''b'', task (Some ''g1'')), (''c'', task None)])]
     [''a'', ''g1'']
   = Inr \<lparr>taskSet = [''a'', ''b''], warned = False\<rparr>"
  by code_simp

text \<open>
  C2.  A module exports \<open>a\<close> in the namespace \<open>g\<close> and then a task named \<open>g\<close>.  The
  guard looks the new name up among the tasks only, so the merge succeeds in both variants
  of \<^verbatim>\<open>parseTaskFiles\<close>, and \<open>g\<close> is a task name and a namespace label at once.
  The same two entries in the other order are refused, with a message that names \<open>a\<close>.
\<close>

theorem parseTaskFiles_accepts_task_named_as_namespace:
  "parseTaskFiles ''/proj/tasks'' [(''demo.js'', [(''a'', task (Some ''g'')), (''g'', task None)])]
     = Inr \<lparr>exportedTasks =
              \<lparr>own_props = [(''a'', task (Some ''g'')), (''g'', task None)], array_length = 0\<rparr>,
            exportedTasksNamespaces =
              \<lparr>own_props = [(''g'', Some ''g'')], array_length = 0\<rparr>\<rparr>
   \<and> parseTaskFiles_pwptr ''/proj/tasks'' True
       [(''demo.js'', [(''a'', task (Some ''g'')), (''g'', task None)])]
     = Inr \<lparr>exportedTasks =
              \<lparr>own_props = [(''a'', task (Some ''g'')), (''g'', task None)], array_length = 0\<rparr>,
            exportedTasksNamespaces =
              \<lparr>own_props = [(''g'', Some ''g''), (''undefined'', None)], array_length = 0\<rparr>\<rparr>
   \<and> parseTaskFiles ''/proj/tasks'' [(''demo.js'', [(''g'', task None), (''a'', task (Some ''g''))])]
     = Inl (TaskAlreadyExists ''a'')"
  by code_simp

text \<open>
  C3.  The registry holds \<open>x\<close> without a namespace and \<open>y\<close> in a namespace that is
  literally called \<open>undefined\<close>; the request names that namespace once, so nothing is
  listed twice.  No task was named directly and the namespace has the single member \<open>y\<close>,
  but the sequence that comes back is \<open>x, y\<close>: the missing namespace of \<open>x\<close> is looked up
  as the key \<^verbatim>\<open>"undefined"\<close>.
\<close>

theorem normalizeTaskSet_sequence_with_namespace_called_undefined:
  "run_tasks ''/proj/tasks''
     [(''demo.js'', [(''x'', task None), (''y'', task (Some ''undefined''))])]
     [''undefined'']
   = Inr \<lparr>taskSet = [''x'', ''y''], warned = True\<rparr>"
  by code_simp

text \<open>
  C4.  The request \<open>constructor\<close> names neither a task nor a namespace of the registry,
  which holds the single task \<open>a\<close>.  Both registries are arrays and inherit a property of
  that name, so the existence test passes: the normalizer returns the empty set (and prints
  the warning) instead of failing.  An unknown identifier that the arrays do not inherit,
  such as \<open>nope\<close>, is refused.
\<close>

theorem normalizeTaskSet_accepts_inherited_property_name:
  "run_tasks ''/proj/tasks'' [(''demo.js'', [(''a'', task None)])] [''constructor'']
   = Inr \<lparr>taskSet = [], warned = True\<rparr>
   \<and> run_tasks ''/proj/tasks'' [(''demo.js'', [(''a'', task None)])] [''nope'']
   = Inl (TaskDoesNotExist ''nope'')"
  by code_simp

text \<open>
  C10.  With \<open>a\<close> in a namespace literally called \<open>undefined\<close> and \<open>b\<close> declaring no
  namespace, the request for that namespace returns \<open>b\<close> as well: a task without a
  namespace has been added by the expansion.
\<close>

theorem normalizeTaskSet_expands_task_without_namespace:
  "run_tasks ''/proj/tasks''
     [(''demo.js'', [(''a'', task (Some ''undefined'')), (''b'', task None)])]
     [''undefined'']
   = Inr \<lparr>taskSet = [''a'', ''b''], warned = True\<rparr>"
  by code_simp


section \<open>The configuration on a concrete project\<close>

text \<open>
  C6.  There is no configuration file, the project lives in \<^verbatim>\<open>/proj\<close> and its tasks
  directory exists.  The default for the profiles directory is the tasks directory with
  \<^verbatim>\<open>../.chrome-profiles\<close> appended, without a separator: the path starts with a slash, so
  it is not resolved any further, and it names a directory below \<^verbatim>\<open>/proj/tasks..\<close>,
  which cannot be created.  The sibling of the tasks directory would be
  \<^verbatim>\<open>/proj/.chrome-profiles\<close>.
\<close>

theorem default_profilesDir_is_not_the_sibling:
  "setup_config project_env listed_dirs [''/proj'', ''/proj/tasks''] no_config_file
     = Inl (ProfilesDirCreateFailed ''/proj/tasks../.chrome-profiles'')
   \<and> path_resolve ''/proj'' (''/proj/tasks'' @ ''/../.chrome-profiles'') = ''/proj/.chrome-profiles''"
  by code_simp

text \<open>
  C7.  The profile \<open>p\<close> sets \<^verbatim>\<open>exts\<close> to \<^verbatim>\<open>null\<close>.  The test for an array reads
  \<^verbatim>\<open>paths.forEach\<close>, which throws on \<^verbatim>\<open>null\<close>: the process ends with an uncaught
  TypeError, not with the message that names the profile.  A single string as \<^verbatim>\<open>exts\<close>
  does give that message.
\<close>

theorem null_exts_ends_in_uncaught_TypeError:
  "setup_config project_env listed_dirs [''/proj'', ''/proj/tasks'']
     (no_config_file\<lparr>raw_profiles := Some [(''p'', [(''exts'', JNull)])]\<rparr>)
   = Inl (Uncaught TypeError)
   \<and> setup_config project_env listed_dirs [''/proj'', ''/proj/tasks'']
     (no_config_file\<lparr>raw_profiles := Some [(''p'', [(''exts'', JString ''ext'')])]\<rparr>)
   = Inl (InvalidExts ''p'')"
  by code_simp


section \<open>Deleting a cookie file that is missing or protected\<close>

text \<open>
  C8.  The user has confirmed the deletion and \<^verbatim>\<open>fs.unlinkSync\<close> throws an error with
  the given code.  When the code is \<^verbatim>\<open>ENOENT\<close>, \<^verbatim>\<open>delFile\<close> returns normally after
  reporting that the file does not exist or was already removed; with any other code it
  ends the process with a status that is not zero.
\<close>

theorem delFile_ENOENT_is_success_other_errors_exit:
  "unlinkSync file = Some code \<Longrightarrow>
     (if code = ''ENOENT''
      then delFile unlinkSync file confirmMsg (Some ''y'')
             = Inr [confirmMsg @ [CHR 0x0A] @ ''(y/n): '', ''Does not exist or already removed.'']
      else delFile unlinkSync file confirmMsg (Some ''y'') = Inl (FailedToRemove file code)
           \<and> exit_status (FailedToRemove file code) \<noteq> 0)"
  by (simp add: delFile_def exit_status_def)

text \<open>
  C8, on a missing cookie file and on one that is protected (\<^verbatim>\<open>EACCES\<close>).
\<close>

theorem delFile_ENOENT_is_success_other_errors_exit_witness:
  "delFile (\<lambda>_. Some ''ENOENT'') ''/p/Default/Cookies'' ''Delete cookies?'' (Some ''y'')
     = Inr [''Delete cookies?'' @ [CHR 0x0A] @ ''(y/n): '', ''Does not exist or already removed.'']
   \<and> delFile (\<lambda>_. Some ''EACCES'') ''/p/Default/Cookies'' ''Delete cookies?'' (Some ''y'')
     = Inl (FailedToRemove ''/p/Default/Cookies'' ''EACCES'')
   \<and> exit_status (FailedToRemove ''/p/Default/Cookies'' ''EACCES'') \<noteq> 0"
  using delFile_ENOENT_is_success_other_errors_exit
          [of "\<lambda>_. Some ''ENOENT''" "''/p/Default/Cookies''" "''ENOENT''" "''Delete cookies?''"]
        delFile_ENOENT_is_success_other_errors_exit
          [of "\<lambda>_. Some ''EACCES''" "''/p/Default/Cookies''" "''EACCES''" "''Delete cookies?''"]
  by simp


section \<open>Path resolution and the home placeholder\<close>

subsection \<open>Replacing the first occurrence\<close>

lemma split_first_None_iff: "split_first pat s = None \<longleftrightarrow> \<not> sublist pat s"
  by (induction s) (auto simp: sublist_Cons_right split: option.splits)

lemma js_replace_absent: "\<not> sublist pat s \<Longrightarrow> js_replace s pat r = s"
  using split_first_None_iff [of pat s] by (simp add: js_replace_def)

lemma getSubstitution_plain: "CHR ''$'' \<notin> set r \<Longrightarrow> getSubstitution m a b r = r"
  by (induction m a b r rule: getSubstitution.induct) auto

lemma prefix_nth: "prefix pat s \<Longrightarrow> n < length pat \<Longrightarrow> pat ! n = s ! n"
  by (auto simp: prefix_def nth_append)

lemma split_first_at:
  assumes "\<not> sublist pat front" "pat \<noteq> []" "hd pat \<notin> set (tl pat)"
  shows "split_first pat (front @ pat @ rest) = Some (front, rest)"
  using assms(1)
proof (induction front)
  case Nil
  with assms(2) show ?case by (cases pat) auto
next
  case (Cons c front)
  have np: "\<not> prefix pat (c # front @ pat @ rest)"
  proof
    assume p: "prefix pat (c # front @ pat @ rest)"
    show False
    proof (cases "length (c # front) < length pat")
      case True
      from prefix_nth[OF p True] have "pat ! length (c # front) = (c # front @ pat @ rest) ! length (c # front)" .
      also have "\<dots> = hd pat"
        using assms(2) by (simp add: nth_append hd_conv_nth)
      finally have "pat ! length (c # front) = hd pat" .
      moreover have "pat ! length (c # front) \<in> set (tl pat)"
        using True by (cases pat) auto
      ultimately show False using assms(3) by simp
    next
      case False
      with p have "prefix pat (c # front)"
        by (metis append_Cons not_le_imp_less prefix_length_prefix prefixI)
      with Cons.prems show False by auto
    qed
  qed
  from Cons.prems have "\<not> sublist pat front" by (simp add: sublist_Cons_right)
  with Cons.IH np show ?case by simp
qed

lemma sublist_across:
  assumes "sublist pat (xs @ ys)" "\<not> sublist pat xs" "\<not> sublist pat ys"
  shows "\<exists>p1 p2. pat = p1 @ p2 \<and> p1 \<noteq> [] \<and> p2 \<noteq> [] \<and> suffix p1 xs \<and> prefix p2 ys"
proof -
  from assms obtain p1 p2 where *: "pat = p1 @ p2" "suffix p1 xs" "prefix p2 ys"
    by (auto simp: sublist_append)
  with assms(2,3) have "p1 \<noteq> []" "p2 \<noteq> []" by auto
  with * show ?thesis by blast
qed

lemma no_occurrence_around:
  assumes "\<not> sublist pat front" "\<not> sublist pat rest" "pat \<noteq> []"
      and "prefix [c] h" "c \<notin> set pat" "hd pat \<notin> set h"
  shows "\<not> sublist pat (front @ h @ rest)"
proof
  assume s: "sublist pat (front @ h @ rest)"
  have nh: "\<not> sublist pat h"
    using assms(3,6) set_mono_sublist[of pat h] by (cases pat) auto
  have nhr: "\<not> sublist pat (h @ rest)"
  proof
    assume "sublist pat (h @ rest)"
    from sublist_across[OF this nh assms(2)] obtain p1 p2
      where "pat = p1 @ p2" "p1 \<noteq> []" "suffix p1 h" by blast
    then have "hd pat \<in> set h"
      by (cases p1) (auto simp: suffix_def)
    with assms(6) show False by simp
  qed
  from sublist_across[OF s assms(1) nhr] obtain p1 p2
    where "pat = p1 @ p2" "p2 \<noteq> []" "prefix p2 (h @ rest)" by blast
  moreover from assms(4) obtain h' where "h = c # h'" by (auto simp: prefix_def)
  ultimately have "c \<in> set pat" by (cases p2) auto
  with assms(5) show False by simp
qed

lemma js_replace_first:
  assumes "\<not> sublist pat front" "pat \<noteq> []" "hd pat \<notin> set (tl pat)" "CHR ''$'' \<notin> set r"
  shows "js_replace (front @ pat @ rest) pat r = front @ r @ rest"
  using split_first_at [OF assms(1-3)] getSubstitution_plain [OF assms(4)]
  by (simp add: js_replace_def)

lemma split_path_head: "split_path s \<noteq> [] \<and> prefix (hd (split_path s)) s"
  by (induction s) (auto split: list.splits)

lemma split_path_segments: "seg \<in> set (split_path s) \<Longrightarrow> sublist seg s"
proof (induction s arbitrary: seg)
  case Nil
  then show ?case by simp
next
  case (Cons c cs)
  show ?case
  proof (cases "c = CHR ''/''")
    case True
    with Cons show ?thesis by (auto simp: sublist_Cons_right)
  next
    case False
    from split_path_head [of cs] obtain s0 segs
      where sp: "split_path cs = s0 # segs" and pre: "prefix s0 cs"
      by (cases "split_path cs") auto
    with False Cons.prems have "seg = c # s0 \<or> seg \<in> set segs" by auto
    then show ?thesis
    proof
      assume "seg = c # s0"
      with pre show ?thesis by auto
    next
      assume "seg \<in> set segs"
      with sp have "seg \<in> set (split_path cs)" by simp
      from Cons.IH [OF this] show ?thesis by (simp add: sublist_Cons_right)
    qed
  qed
qed

lemma normalize_segments_subset:
  "set (normalize_segments kept segs) \<subseteq> set kept \<union> set segs"
proof (induction segs arbitrary: kept)
  case Nil
  then show ?case by simp
next
  case (Cons seg segs)
  have "set (case kept of [] \<Rightarrow> [] | _ # up \<Rightarrow> up) \<subseteq> set kept"
    by (cases kept) auto
  with Cons.IH [of kept] Cons.IH [of "seg # kept"]
       Cons.IH [of "case kept of [] \<Rightarrow> [] | _ # up \<Rightarrow> up"]
  show ?case by auto
qed

lemma sublist_joined_segments:
  assumes "pat \<noteq> []" "CHR ''/'' \<notin> set pat"
  shows "sublist pat (concat (map (\<lambda>seg. CHR ''/'' # seg) segs)) \<Longrightarrow> \<exists>seg\<in>set segs. sublist pat seg"
proof (induction segs)
  case Nil
  with assms show ?case by simp
next
  case (Cons s segs)
  let ?J = "concat (map (\<lambda>seg. CHR ''/'' # seg) segs)"
  from Cons.prems have "prefix pat (CHR ''/'' # s @ ?J) \<or> sublist pat (s @ ?J)"
    by (simp add: sublist_Cons_right)
  moreover have "\<not> prefix pat (CHR ''/'' # s @ ?J)"
    using assms by (cases pat) auto
  ultimately have sj: "sublist pat (s @ ?J)" by simp
  show ?case
  proof (cases "sublist pat s \<or> sublist pat ?J")
    case True
    with Cons.IH show ?thesis by auto
  next
    case False
    with sublist_across [OF sj] obtain p1 p2
      where p: "pat = p1 @ p2" "p2 \<noteq> []" "prefix p2 ?J" by blast
    then have "hd p2 = CHR ''/''"
      by (cases segs; cases p2) auto
    with p assms(2) show ?thesis by (cases p2) auto
  qed
qed

lemma sublist_join_absolute:
  assumes "sublist pat (join_absolute segs)" "pat \<noteq> []" "CHR ''/'' \<notin> set pat"
  shows "\<exists>seg\<in>set segs. sublist pat seg"
proof (cases "segs = []")
  case True
  with assms show ?thesis
    by (cases pat) (auto simp: join_absolute_def sublist_Cons_right)
next
  case False
  with assms sublist_joined_segments [of pat segs] show ?thesis
    by (simp add: join_absolute_def)
qed

lemma sublist_path_resolve:
  assumes "sublist pat (path_resolve wd arg)" "pat \<noteq> []" "CHR ''/'' \<notin> set pat"
  shows "sublist pat (if prefix ''/'' arg then arg else wd @ ''/'' @ arg)"
proof -
  let ?full = "if prefix ''/'' arg then arg else wd @ ''/'' @ arg"
  from sublist_join_absolute [OF assms [unfolded path_resolve_def]]
  obtain seg where "seg \<in> set (normalize_segments [] (split_path ?full))" "sublist pat seg"
    by blast
  moreover from this(1) normalize_segments_subset [of "[]" "split_path ?full"]
  have "seg \<in> set (split_path ?full)" by auto
  then have "sublist seg ?full" by (rule split_path_segments)
  ultimately show ?thesis by (meson sublist_order.order.trans)
qed

lemma path_resolve_absolute: "prefix ''/'' (path_resolve wd arg)"
  by (cases "normalize_segments [] (split_path (if prefix ''/'' arg then arg else wd @ ''/'' @ arg))")
     (auto simp: path_resolve_def join_absolute_def)

lemma configDir_absolute: "prefix ''/'' (configDir env)"
  by (simp add: configDir_def path_resolve_absolute)

lemma resolve_relative_keeps_absence:
  assumes "\<not> sublist pat q" "\<not> sublist pat (configDir env)"
      and "pat \<noteq> []" "CHR ''/'' \<notin> set pat" "hd pat \<noteq> CHR ''/''" "\<not> sublist pat ''.''"
  shows "\<not> sublist pat (resolve_relative env q)"
proof -
  define p' where "p' = (if \<not> starts_with_dot_or_slash q then ''./'' @ q else q)"
  have np': "\<not> sublist pat p'"
    using no_occurrence_around [of pat "''.''" q "CHR ''/''" "''/''"] assms
    by (auto simp: p'_def)
  have "\<not> sublist pat (configDir env @ ''/'' @ p')"
    using no_occurrence_around [of pat "configDir env" p' "CHR ''/''" "''/''"] assms np'
    by auto
  moreover have "prefix ''/'' (configDir env @ ''/'' @ p')"
    using configDir_absolute [of env] by (auto simp: prefix_def)
  ultimately have "\<not> sublist pat (path_resolve (cwd env) (configDir env @ ''/'' @ p'))"
    using sublist_path_resolve [of pat "cwd env" "configDir env @ ''/'' @ p'"] assms(3,4)
    by auto
  with np' show ?thesis
    by (simp add: resolve_relative_def Let_def p'_def [symmetric])
qed

lemma resolve_relative_shape:
  "starts_with_dot_or_slash (resolve_relative env x) \<and> \<not> is_relative_path (resolve_relative env x)"
proof (cases "is_relative_path (if \<not> starts_with_dot_or_slash x then ''./'' @ x else x)")
  case True
  define a where
    "a = configDir env @ ''/'' @ (if \<not> starts_with_dot_or_slash x then ''./'' @ x else x)"
  from True have eq: "resolve_relative env x = path_resolve (cwd env) a"
    by (simp add: resolve_relative_def Let_def a_def)
  from path_resolve_absolute [of "cwd env" a]
  obtain zs where "path_resolve (cwd env) a = CHR ''/'' # zs"
    by (auto simp: prefix_def)
  with eq show ?thesis
    by (simp add: starts_with_dot_or_slash_def is_relative_path_def)
next
  case False
  then show ?thesis
    by (auto simp: resolve_relative_def Let_def is_relative_path_def split: if_splits)
qed

lemma resolveConfigPath_fixed:
  assumes "\<not> sublist ''{HOME}'' q" "starts_with_dot_or_slash q" "\<not> is_relative_path q"
  shows "resolveConfigPath env q = q"
  using assms by (simp add: resolveConfigPath_def js_replace_absent resolve_relative_def)


subsection \<open>Substitution of the placeholder\<close>

text \<open>
  C5, as the claim states it, fails on a path with two placeholders.  With the home
  directory \<^verbatim>\<open>/home/u\<close>, the path \<^verbatim>\<open>{HOME}/ext/{HOME}\<close> resolves to
  \<^verbatim>\<open>/home/u/ext/{HOME}\<close>, which still contains the placeholder.
\<close>

theorem resolveConfigPath_keeps_second_placeholder:
  "resolveConfigPath project_env ''{HOME}/ext/{HOME}'' = ''/home/u/ext/{HOME}''
   \<and> sublist ''{HOME}'' (resolveConfigPath project_env ''{HOME}/ext/{HOME}'')"
  by code_simp

text \<open>
  C5, amended.  Let the path contain the placeholder exactly once: it is
  \<open>front @ ''{HOME}'' @ rest\<close> with no further occurrence in \<open>front\<close> or \<open>rest\<close>.  Let
  \<^verbatim>\<open>HOME\<close> be set to an absolute path \<open>h\<close> that contains neither an opening brace nor a dollar
  sign, and let the configuration directory not contain the placeholder itself.  Then
  \<^verbatim>\<open>resolveConfigPath\<close> yields what lines 34-39 make of the path with \<open>h\<close> in the place of
  the placeholder, and the result contains no literal \<^verbatim>\<open>{HOME}\<close>.
\<close>

theorem resolveConfigPath_replaces_single_placeholder:
  assumes "HOME env = Some h" "prefix ''/'' h" "CHR ''{'' \<notin> set h" "CHR ''$'' \<notin> set h"
      and "\<not> sublist ''{HOME}'' (configDir env)"
      and "\<not> sublist ''{HOME}'' front" "\<not> sublist ''{HOME}'' rest"
  shows "resolveConfigPath env (front @ ''{HOME}'' @ rest) = resolve_relative env (front @ h @ rest)
       \<and> \<not> sublist ''{HOME}'' (resolveConfigPath env (front @ ''{HOME}'' @ rest))"
proof -
  have r: "js_replace (front @ ''{HOME}'' @ rest) ''{HOME}'' h = front @ h @ rest"
    using assms(4,6) by (intro js_replace_first) auto
  have "\<not> sublist ''{HOME}'' (front @ h @ rest)"
    using assms(2,3,6,7) by (intro no_occurrence_around [where c = "CHR ''/''"]) auto
  then have "\<not> sublist ''{HOME}'' (resolve_relative env (front @ h @ rest))"
    using assms(5) by (intro resolve_relative_keeps_absence) (auto simp: sublist_Cons_right)
  with r assms(1) show ?thesis
    by (simp add: resolveConfigPath_def js_ToString_def)
qed

text \<open>
  C5, amended, on the extension path \<^verbatim>\<open>ext/{HOME}/unpacked\<close> of a project in
  \<^verbatim>\<open>/proj\<close> with the home directory \<^verbatim>\<open>/home/u\<close>.
\<close>

theorem resolveConfigPath_replaces_single_placeholder_witness:
  "HOME project_env = Some ''/home/u'' \<and> prefix ''/'' ''/home/u''
   \<and> CHR ''{'' \<notin> set ''/home/u'' \<and> CHR ''$'' \<notin> set ''/home/u''
   \<and> \<not> sublist ''{HOME}'' (configDir project_env)
   \<and> \<not> sublist ''{HOME}'' ''ext/'' \<and> \<not> sublist ''{HOME}'' ''/unpacked''
   \<and> resolveConfigPath project_env (''ext/'' @ ''{HOME}'' @ ''/unpacked'')
       = resolve_relative project_env (''ext/'' @ ''/home/u'' @ ''/unpacked'')
   \<and> resolve_relative project_env (''ext/'' @ ''/home/u'' @ ''/unpacked'')
       = ''/proj/ext/home/u/unpacked''
   \<and> \<not> sublist ''{HOME}'' (resolveConfigPath project_env (''ext/'' @ ''{HOME}'' @ ''/unpacked''))"
proof -
  have a: "HOME project_env = Some ''/home/u''" by (simp add: project_env_def)
  have b: "prefix ''/'' ''/home/u''" "CHR ''{'' \<notin> set ''/home/u''" "CHR ''$'' \<notin> set ''/home/u''"
    by simp_all
  have c: "\<not> sublist ''{HOME}'' (configDir project_env)" by code_simp
  have d: "\<not> sublist ''{HOME}'' ''ext/''" "\<not> sublist ''{HOME}'' ''/unpacked''" by code_simp+
  have e: "resolve_relative project_env (''ext/'' @ ''/home/u'' @ ''/unpacked'')
             = ''/proj/ext/home/u/unpacked''"
    by code_simp
  note g = resolveConfigPath_replaces_single_placeholder [OF a b c d]
  from g a b c d e show ?thesis by blast
qed


subsection \<open>Resolving a resolved path again\<close>

text \<open>
  C9, as the claim states it, fails: the substitution is applied to every path, also to
  an absolute one.  With the home directory \<^verbatim>\<open>/home/u\<close>, the path
  \<^verbatim>\<open>{HOME}/{HOME}\<close> resolves to the absolute path \<^verbatim>\<open>/home/u/{HOME}\<close>, and
  resolving that path yields \<^verbatim>\<open>/home/u//home/u\<close>.
\<close>

theorem resolveConfigPath_changes_resolved_path:
  "resolveConfigPath project_env ''{HOME}/{HOME}'' = ''/home/u/{HOME}''
   \<and> resolveConfigPath project_env ''/home/u/{HOME}'' = ''/home/u//home/u''
   \<and> resolveConfigPath project_env (resolveConfigPath project_env ''{HOME}/{HOME}'')
       \<noteq> resolveConfigPath project_env ''{HOME}/{HOME}''"
  by code_simp

text \<open>
  C9, amended.  A resolved path that no longer contains the placeholder is a fixed point:
  resolving it again returns it unchanged.  In particular every absolute path without the
  placeholder is returned unchanged.
\<close>

theorem resolveConfigPath_idempotent_without_placeholder:
  "(\<not> sublist ''{HOME}'' (resolveConfigPath env p) \<longrightarrow>
      resolveConfigPath env (resolveConfigPath env p) = resolveConfigPath env p)
   \<and> (prefix ''/'' q \<and> \<not> sublist ''{HOME}'' q \<longrightarrow> resolveConfigPath env q = q)"
proof (intro conjI impI)
  assume "\<not> sublist ''{HOME}'' (resolveConfigPath env p)"
  moreover have "starts_with_dot_or_slash (resolveConfigPath env p)"
    "\<not> is_relative_path (resolveConfigPath env p)"
    using resolve_relative_shape by (simp_all add: resolveConfigPath_def)
  ultimately show "resolveConfigPath env (resolveConfigPath env p) = resolveConfigPath env p"
    by (rule resolveConfigPath_fixed)
next
  assume "prefix ''/'' q \<and> \<not> sublist ''{HOME}'' q"
  then show "resolveConfigPath env q = q"
    by (intro resolveConfigPath_fixed)
       (auto simp: starts_with_dot_or_slash_def is_relative_path_def prefix_def)
qed

text \<open>
  C9, amended, on \<^verbatim>\<open>{HOME}/ext\<close>, which resolves to \<^verbatim>\<open>/home/u/ext\<close>, and on the
  absolute path \<^verbatim>\<open>/opt/ext\<close>.
\<close>

theorem resolveConfigPath_idempotent_without_placeholder_witness:
  "\<not> sublist ''{HOME}'' (resolveConfigPath project_env ''{HOME}/ext'')
   \<and> resolveConfigPath project_env ''{HOME}/ext'' = ''/home/u/ext''
   \<and> resolveConfigPath project_env (resolveConfigPath project_env ''{HOME}/ext'')
       = resolveConfigPath project_env ''{HOME}/ext''
   \<and> prefix ''/'' ''/opt/ext'' \<and> \<not> sublist ''{HOME}'' ''/opt/ext''
   \<and> resolveConfigPath project_env ''/opt/ext'' = ''/opt/ext''"
proof -
  have a: "resolveConfigPath project_env ''{HOME}/ext'' = ''/home/u/ext''" by code_simp
  have b: "\<not> sublist ''{HOME}'' ''/home/u/ext''" by code_simp
  have c: "prefix ''/'' ''/opt/ext'' \<and> \<not> sublist ''{HOME}'' ''/opt/ext''" by code_simp
  from resolveConfigPath_idempotent_without_placeholder [of project_env "''{HOME}/ext''" "''/opt/ext''"]
       a b c
  show ?thesis by simp
qed


section \<open>Registration and normalization of ordinary identifiers\<close>

text \<open>
  For ordinary identifiers the arrays behave like plain maps, and the two operations do
  what the specification describes, up to the condition of the warning.
\<close>

lemma js_truthy_at_ordinary:
  assumes "ordinary_array a" "plain_key k"
  shows "js_truthy_at tr a k = (case map_of (own_props a) k of None \<Rightarrow> False | Some v \<Rightarrow> tr v)"
  using assms by (auto simp: js_truthy_at_def ordinary_array_def plain_key_def split: option.splits)

lemma task_truthy_ordinary:
  assumes "ordinary_registry reg" "plain_key t"
  shows "task_truthy reg t = registered_task reg t"
proof -
  have "ordinary_array (exportedTasks reg)" using assms(1) by (simp add: ordinary_registry_def)
  from js_truthy_at_ordinary [OF this assms(2)] show ?thesis
    by (auto simp: task_truthy_def registered_task_def map_of_eq_None_iff
             split: option.splits dest: map_of_SomeD intro: rev_image_eqI)
qed

lemma namespace_truthy_ordinary:
  assumes "ordinary_registry reg" "plain_key t"
  shows "namespace_truthy reg t = registered_namespace reg t"
proof -
  have a: "ordinary_array (exportedTasksNamespaces reg)"
    and v: "list_all (\<lambda>(k, v). v = Some k \<and> k \<noteq> [] \<and> k \<noteq> ''undefined'')
              (own_props (exportedTasksNamespaces reg))"
    using assms(1) by (simp_all add: ordinary_registry_def)
  show ?thesis
  proof (cases "map_of (own_props (exportedTasksNamespaces reg)) t")
    case None
    with js_truthy_at_ordinary [OF a assms(2)] show ?thesis
      by (simp add: namespace_truthy_def registered_namespace_def map_of_eq_None_iff)
  next
    case (Some w)
    then have m: "(t, w) \<in> set (own_props (exportedTasksNamespaces reg))" by (rule map_of_SomeD)
    with v have "string_truthy w" by (auto simp: list_all_iff string_truthy_def)
    moreover from m have "registered_namespace reg t"
      by (auto simp: registered_namespace_def intro: rev_image_eqI)
    ultimately show ?thesis
      using js_truthy_at_ordinary [OF a assms(2)] Some by (simp add: namespace_truthy_def)
  qed
qed

lemma set_assign_prop: "fst ` set (assign_prop k v xs) = insert k (fst ` set xs)"
  by (induction k v xs rule: assign_prop.induct) auto

lemma snd_assign_prop: "snd ` set (assign_prop k v xs) \<subseteq> insert v (snd ` set xs)"
  by (induction k v xs rule: assign_prop.induct) auto

lemma proto_inherited: "''__proto__'' \<in> set arrayPrototypeNames"
  by (simp add: arrayPrototypeNames_def)

lemma js_put_plain:
  assumes "plain_key k"
  shows "js_put f a k v
           = Inr \<lparr>own_props = assign_prop k v (own_props a), array_length = array_length a\<rparr>"
proof -
  from assms proto_inherited have "k \<noteq> ''__proto__''" "k \<noteq> ''length''" "\<not> is_array_index k"
    unfolding plain_key_def by blast+
  then show ?thesis by (simp add: js_put_def)
qed

lemma marks_put:
  assumes "marks a" "plain_key k"
  shows "marks \<lparr>own_props = assign_prop k True (own_props a), array_length = array_length a\<rparr>"
proof -
  have 1: "array_length a = 0" and 2: "\<forall>x\<in>fst ` set (own_props a). plain_key x"
    and 3: "snd ` set (own_props a) \<subseteq> {True}"
    using assms(1) by (simp_all add: marks_def ordinary_array_def list_all_iff)
  have "\<forall>x\<in>fst ` set (assign_prop k True (own_props a)). plain_key x"
    using 2 assms(2) by (simp add: set_assign_prop)
  moreover have "snd ` set (assign_prop k True (own_props a)) \<subseteq> {True}"
    using 3 snd_assign_prop [of k True "own_props a"] by blast
  ultimately show ?thesis
    using 1 by (simp add: marks_def ordinary_array_def list_all_iff)
qed

lemma flag_truthy_marks:
  assumes "marks a" "plain_key k"
  shows "flag_truthy a k = (k \<in> fst ` set (own_props a))"
proof (cases "map_of (own_props a) k")
  case None
  with assms js_truthy_at_ordinary [of a k "\<lambda>b. b"] show ?thesis
    by (simp add: flag_truthy_def marks_def map_of_eq_None_iff)
next
  case (Some w)
  then have m: "(k, w) \<in> set (own_props a)" by (rule map_of_SomeD)
  from m have "w \<in> snd ` set (own_props a)" by (metis image_eqI snd_conv)
  with assms(1) have w: "w = True" unfolding marks_def by blast
  from m have "k \<in> fst ` set (own_props a)" by (metis image_eqI fst_conv)
  moreover from assms have "js_truthy_at (\<lambda>b. b) a k = w"
    using js_truthy_at_ordinary [of a k "\<lambda>b. b"] Some by (simp add: marks_def)
  ultimately show ?thesis using w by (simp add: flag_truthy_def)
qed

lemma classify_tasks_ordinary:
  assumes "ordinary_registry reg"
  shows "marks a \<Longrightarrow> list_all plain_key ts \<Longrightarrow>
     (case find (unknown_identifier reg) ts of
        Some t \<Rightarrow> classify_tasks reg a run ts = Inl (TaskDoesNotExist t)
      | None \<Rightarrow> (\<exists>b. classify_tasks reg a run ts = Inr (b, run @ direct_names reg ts) \<and> marks b
                    \<and> fst ` set (own_props b)
                        = fst ` set (own_props a) \<union> {t \<in> set ts. registered_namespace reg t}))"
proof (induction ts arbitrary: a run)
  case Nil
  then show ?case by (simp add: direct_names_def)
next
  case (Cons t ts)
  from Cons.prems have pt: "plain_key t" and pts: "list_all plain_key ts" by simp_all
  note tt = task_truthy_ordinary [OF assms pt]
  note nt = namespace_truthy_ordinary [OF assms pt]
  show ?case
  proof (cases "unknown_identifier reg t")
    case True
    then show ?thesis by (simp add: tt nt unknown_identifier_def)
  next
    case known: False
    show ?thesis
    proof (cases "registered_namespace reg t")
      case True
      let ?a' = "\<lparr>own_props = assign_prop t True (own_props a), array_length = array_length a\<rparr>"
      have m': "marks ?a'" using Cons.prems(1) pt by (rule marks_put)
      have step: "classify_tasks reg a run (t # ts) = classify_tasks reg ?a' run ts"
        using True by (simp add: tt nt js_put_plain [OF pt])
      have d: "direct_names reg (t # ts) = direct_names reg ts"
        using True by (simp add: direct_names_def)
      have k: "fst ` set (own_props ?a') = insert t (fst ` set (own_props a))"
        by (simp add: set_assign_prop)
      have f: "find (unknown_identifier reg) (t # ts) = find (unknown_identifier reg) ts"
        using known by simp
      have s: "{u \<in> set (t # ts). registered_namespace reg u}
                 = insert t {u \<in> set ts. registered_namespace reg u}"
        using True by auto
      from Cons.IH [OF m' pts, of run] show ?thesis
        unfolding step d f s k by (simp split: option.splits)
    next
      case False
      have step: "classify_tasks reg a run (t # ts) = classify_tasks reg a (run @ [t]) ts"
        using False known by (simp add: tt nt unknown_identifier_def)
      have d: "direct_names reg (t # ts) = t # direct_names reg ts"
        using False by (simp add: direct_names_def)
      have f: "find (unknown_identifier reg) (t # ts) = find (unknown_identifier reg) ts"
        using known by simp
      have s: "{u \<in> set (t # ts). registered_namespace reg u}
                 = {u \<in> set ts. registered_namespace reg u}"
        using False by auto
      from Cons.IH [OF Cons.prems(1) pts, of "run @ [t]"] show ?thesis
        unfolding step d f s by (simp split: option.splits)
    qed
  qed
qed

lemma js_entries_ordinary:
  assumes "ordinary_array a"
  shows "js_entries a = own_props a"
proof -
  from assms have "\<forall>kv\<in>set (own_props a). \<not> is_array_index (fst kv)"
    by (auto simp: ordinary_array_def list_all_iff plain_key_def)
  then have "filter (\<lambda>(k, _). is_array_index k) (own_props a) = []"
    and "filter (\<lambda>(k, _). \<not> is_array_index k) (own_props a) = own_props a"
    by (auto simp: filter_empty_conv filter_id_conv)
  then show ?thesis by (simp add: js_entries_def)
qed

lemma plain_undefined: "plain_key ''undefined''"
  by (simp add: plain_key_def arrayPrototypeNames_def is_array_index_def is_digit_def)

lemma expand_namespaces_ordinary:
  assumes "ordinary_registry reg" "marks b"
      and "fst ` set (own_props b) = {t \<in> set ts. registered_namespace reg t}"
  shows "expand_namespaces reg b = namespace_members reg ts"
proof -
  have oa: "ordinary_array (exportedTasks reg)"
    and pn: "list_all (\<lambda>(k, v). case namespace v of None \<Rightarrow> True | Some n \<Rightarrow> plain_key n)
               (own_props (exportedTasks reg))"
    and nu: "\<not> registered_namespace reg ''undefined''"
    using assms(1)
    by (auto simp: ordinary_registry_def registered_namespace_def list_all_iff)
  have "flag_truthy b (js_ToString (namespace v))
          = (case namespace v of None \<Rightarrow> False
             | Some n \<Rightarrow> n \<in> set ts \<and> registered_namespace reg n)"
    if "(k, v) \<in> set (own_props (exportedTasks reg))" for k v
  proof (cases "namespace v")
    case None
    with flag_truthy_marks [OF assms(2) plain_undefined] assms(3) nu show ?thesis
      by (simp add: js_ToString_def)
  next
    case (Some n)
    with that pn have "plain_key n" by (auto simp: list_all_iff)
    from flag_truthy_marks [OF assms(2) this] assms(3) Some show ?thesis
      by (simp add: js_ToString_def)
  qed
  then have "filter (\<lambda>(key, v). flag_truthy b (js_ToString (namespace v))) (own_props (exportedTasks reg))
     = filter (\<lambda>(k, v). case namespace v of None \<Rightarrow> False
                        | Some n \<Rightarrow> n \<in> set ts \<and> registered_namespace reg n)
         (own_props (exportedTasks reg))"
    by (intro filter_cong) auto
  then show ?thesis
    by (simp add: expand_namespaces_def namespace_members_def js_entries_ordinary [OF oa])
qed

lemma marks_empty: "marks empty_array"
  by (simp add: marks_def ordinary_array_def empty_array_def)

text \<open>
  The normalizer on an ordinary registry and a request of ordinary identifiers: the first
  unknown identifier of the request is fatal; otherwise the result is the set built from the
  direct names followed by the members of the requested namespaces, and the warning is
  printed when the size of that set differs from the length of the request.
\<close>

theorem normalizeTaskSet_ordinary:
  assumes "ordinary_registry reg" "list_all plain_key tasks"
  shows "normalizeTaskSet reg tasks =
     (case find (unknown_identifier reg) tasks of
        Some t \<Rightarrow> Inl (TaskDoesNotExist t)
      | None \<Rightarrow>
          Inr \<lparr>taskSet = new_Set (direct_names reg tasks @ namespace_members reg tasks),
               warned = (length (new_Set (direct_names reg tasks @ namespace_members reg tasks))
                          \<noteq> length tasks)\<rparr>)"
proof (cases "find (unknown_identifier reg) tasks")
  case None
  with classify_tasks_ordinary [OF assms(1) marks_empty assms(2), of "[]"]
  obtain b where c: "classify_tasks reg empty_array [] tasks = Inr (b, direct_names reg tasks)"
    and m: "marks b"
    and k: "fst ` set (own_props b) = {t \<in> set tasks. registered_namespace reg t}"
    by (auto simp: empty_array_def)
  from expand_namespaces_ordinary [OF assms(1) m k] c None show ?thesis
    by (simp add: normalizeTaskSet_def Let_def)
next
  case (Some t)
  with classify_tasks_ordinary [OF assms(1) marks_empty assms(2), of "[]"] show ?thesis
    by (simp add: normalizeTaskSet_def)
qed

lemma foldl_set_add_distinct: "distinct (acc @ xs) \<Longrightarrow> foldl set_add acc xs = acc @ xs"
  by (induction xs arbitrary: acc) auto

lemma new_Set_distinct: "distinct xs \<Longrightarrow> new_Set xs = xs"
  using foldl_set_add_distinct [of "[]" xs] by (simp add: new_Set_def)

lemma assign_prop_new: "k \<notin> fst ` set xs \<Longrightarrow> assign_prop k v xs = xs @ [(k, v)]"
  by (induction k v xs rule: assign_prop.induct) auto

lemma assign_prop_subset: "set (assign_prop k v xs) \<subseteq> insert (k, v) (set xs)"
  by (induction k v xs rule: assign_prop.induct) auto

lemma ordinary_array_put:
  assumes "ordinary_array a" "plain_key k"
  shows "ordinary_array \<lparr>own_props = assign_prop k v (own_props a), array_length = array_length a\<rparr>"
  using assms by (simp add: ordinary_array_def list_all_iff set_assign_prop)

lemma empty_registry_ordinary: "ordinary_registry empty_registry"
  by (simp add: ordinary_registry_def ordinary_array_def empty_registry_def empty_array_def)

lemma register_task_ordinary:
  assumes "ordinary_registry reg" "ordinary_entry e" "register_task reg e = Inr reg'"
  shows "ordinary_registry reg'
       \<and> own_props (exportedTasks reg') = own_props (exportedTasks reg) @ [e]
       \<and> fst e \<notin> fst ` set (own_props (exportedTasks reg))"
proof -
  obtain key v where e: "e = (key, v)" by (cases e)
  from assms(2) e have pk: "plain_key key"
    and pn: "case namespace v of None \<Rightarrow> True | Some n \<Rightarrow> plain_key n \<and> n \<noteq> ''undefined''"
    by (simp_all add: ordinary_entry_def)
  from assms(1) have ot: "ordinary_array (exportedTasks reg)"
    and on: "ordinary_array (exportedTasksNamespaces reg)"
    and tn: "list_all (\<lambda>(k, v). case namespace v of None \<Rightarrow> True | Some n \<Rightarrow> plain_key n)
               (own_props (exportedTasks reg))"
    and nv: "list_all (\<lambda>(k, v). v = Some k \<and> k \<noteq> [] \<and> k \<noteq> ''undefined'')
               (own_props (exportedTasksNamespaces reg))"
    by (simp_all add: ordinary_registry_def)
  from assms(3) e have guard: "\<not> task_truthy reg key"
    by (auto simp: register_task_def Let_def split: if_splits)
  with task_truthy_ordinary [OF assms(1) pk]
  have new: "key \<notin> fst ` set (own_props (exportedTasks reg))"
    by (simp add: registered_task_def)
  define nss where "nss =
     (if string_truthy (namespace v)
      then \<lparr>own_props = assign_prop (js_ToString (namespace v)) (namespace v)
                          (own_props (exportedTasksNamespaces reg)),
            array_length = array_length (exportedTasksNamespaces reg)\<rparr>
      else exportedTasksNamespaces reg)"
  have pkn: "plain_key (js_ToString (namespace v))" if "string_truthy (namespace v)"
    using that pn by (cases "namespace v") (auto simp: js_ToString_def string_truthy_def)
  have reg': "reg' = \<lparr>exportedTasks =
                       \<lparr>own_props = assign_prop key v (own_props (exportedTasks reg)),
                        array_length = array_length (exportedTasks reg)\<rparr>,
                     exportedTasksNamespaces = nss\<rparr>"
    using assms(3) e guard pkn
    by (auto simp: register_task_def Let_def put_namespace_def put_task_def nss_def
                   js_put_plain [OF pk] js_put_plain split: if_splits)
  have onss: "ordinary_array nss"
    using on pkn by (auto simp: nss_def intro: ordinary_array_put)
  have nvs: "list_all (\<lambda>(k, v). v = Some k \<and> k \<noteq> [] \<and> k \<noteq> ''undefined'') (own_props nss)"
  proof (cases "string_truthy (namespace v)")
    case False
    with nv show ?thesis by (simp add: nss_def)
  next
    case True
    then obtain n where n: "namespace v = Some n" "n \<noteq> []"
      by (cases "namespace v") (auto simp: string_truthy_def)
    with pn have "n \<noteq> ''undefined''" by simp
    with n nv assign_prop_subset [of n "Some n" "own_props (exportedTasksNamespaces reg)"]
    show ?thesis
      by (auto simp: nss_def string_truthy_def js_ToString_def list_all_iff)
  qed
  have tns: "list_all (\<lambda>(k, v). case namespace v of None \<Rightarrow> True | Some n \<Rightarrow> plain_key n)
               (own_props (exportedTasks reg) @ [(key, v)])"
    using tn pn by (cases "namespace v") auto
  have ota: "ordinary_array \<lparr>own_props = own_props (exportedTasks reg) @ [(key, v)],
                             array_length = array_length (exportedTasks reg)\<rparr>"
    using ordinary_array_put [OF ot pk, of v] new by (simp add: assign_prop_new)
  from reg' new ota onss nvs tns e show ?thesis
    by (simp add: ordinary_registry_def assign_prop_new)
qed

lemma register_module_ordinary:
  "ordinary_registry reg \<Longrightarrow> list_all ordinary_entry es \<Longrightarrow> register_module reg es = Inr reg' \<Longrightarrow>
     ordinary_registry reg'
     \<and> own_props (exportedTasks reg') = own_props (exportedTasks reg) @ es
     \<and> distinct (map fst es)
     \<and> fst ` set es \<inter> fst ` set (own_props (exportedTasks reg)) = {}"
proof (induction es arbitrary: reg)
  case Nil
  then show ?case by simp
next
  case (Cons e es)
  from Cons.prems(3) obtain reg1 where r1: "register_task reg e = Inr reg1"
    and r2: "register_module reg1 es = Inr reg'"
    by (auto split: sum.splits)
  from Cons.prems(2) have oe: "ordinary_entry e" and oes: "list_all ordinary_entry es" by simp_all
  note a = register_task_ordinary [OF Cons.prems(1) oe r1]
  from a have o1: "ordinary_registry reg1" by simp
  note b = Cons.IH [OF o1 oes r2]
  from a b show ?case by auto
qed

lemma register_files_ordinary:
  "ordinary_registry reg \<Longrightarrow> list_all ordinary_entry (js_exports listing) \<Longrightarrow>
   register_files reg listing = Inr reg' \<Longrightarrow>
     ordinary_registry reg'
     \<and> own_props (exportedTasks reg') = own_props (exportedTasks reg) @ js_exports listing
     \<and> distinct (map fst (js_exports listing))
     \<and> fst ` set (js_exports listing) \<inter> fst ` set (own_props (exportedTasks reg)) = {}"
proof (induction listing arbitrary: reg)
  case Nil
  then show ?case by (simp add: js_exports_def)
next
  case (Cons f fs)
  obtain fname es where f: "f = (fname, es)" by (cases f)
  show ?case
  proof (cases "is_js_file fname")
    case False
    with f have j: "js_exports (f # fs) = js_exports fs" by (simp add: js_exports_def)
    from Cons.prems(3) f False have "register_files reg fs = Inr reg'" by simp
    from Cons.IH [OF Cons.prems(1) _ this] Cons.prems(2) show ?thesis by (simp add: j)
  next
    case True
    with f have j: "js_exports (f # fs) = es @ js_exports fs" by (simp add: js_exports_def)
    from Cons.prems(3) f True obtain reg1 where r1: "register_module reg es = Inr reg1"
      and r2: "register_files reg1 fs = Inr reg'"
      by (auto split: sum.splits)
    from Cons.prems(2) j have oes: "list_all ordinary_entry es"
      and ofs: "list_all ordinary_entry (js_exports fs)" by simp_all
    note a = register_module_ordinary [OF Cons.prems(1) oes r1]
    from a have o1: "ordinary_registry reg1" by simp
    note b = Cons.IH [OF o1 ofs r2]
    from a b show ?thesis unfolding j by (auto simp: image_Un)
  qed
qed

text \<open>
  When the merge of ordinary exports succeeds, the registry is ordinary and holds exactly
  the exported entries in scan order; in particular their names are pairwise distinct.
\<close>

theorem parseTaskFiles_ordinary:
  assumes "list_all ordinary_entry (js_exports listing)" "parseTaskFiles dir listing = Inr reg"
  shows "ordinary_registry reg \<and> own_props (exportedTasks reg) = js_exports listing
       \<and> distinct (map fst (js_exports listing))"
proof -
  from assms(2) have "register_files empty_registry listing = Inr reg"
    by (auto simp: parseTaskFiles_def split: sum.splits if_splits)
  from register_files_ordinary [OF empty_registry_ordinary assms(1) this] show ?thesis
    by (simp add: empty_registry_def empty_array_def)
qed


subsection \<open>What the normalizer guarantees for ordinary identifiers\<close>

lemma set_new_Set_aux: "set (foldl set_add acc xs) = set acc \<union> set xs"
  by (induction xs arbitrary: acc) auto

lemma set_new_Set: "set (new_Set xs) = set xs"
  by (simp add: new_Set_def set_new_Set_aux)

text \<open>An unknown identifier is fatal, and the first one of the request is named.\<close>

lemma normalizeTaskSet_ordinary_unknown:
  assumes "ordinary_registry reg" "list_all plain_key tasks"
      and "find (unknown_identifier reg) tasks = Some t"
  shows "normalizeTaskSet reg tasks = Inl (TaskDoesNotExist t)"
  using normalizeTaskSet_ordinary [OF assms(1,2)] assms(3) by simp

text \<open>
  Without duplicates the run order is the direct names in request order, then the members
  of the requested namespaces in registry order.
\<close>

lemma normalizeTaskSet_ordinary_order:
  assumes "ordinary_registry reg" "list_all plain_key tasks"
      and "find (unknown_identifier reg) tasks = None"
      and "distinct (direct_names reg tasks @ namespace_members reg tasks)"
  shows "normalizeTaskSet reg tasks
           = Inr \<lparr>taskSet = direct_names reg tasks @ namespace_members reg tasks,
                  warned = (length (direct_names reg tasks @ namespace_members reg tasks)
                             \<noteq> length tasks)\<rparr>"
  using normalizeTaskSet_ordinary [OF assms(1,2)] assms(3) new_Set_distinct [OF assms(4)]
  by simp

text \<open>
  Every element of the returned set is a registered task name, and what the expansion adds
  is a task that declares a requested namespace.
\<close>

lemma normalizeTaskSet_ordinary_members:
  assumes "ordinary_registry reg" "list_all plain_key tasks"
      and "normalizeTaskSet reg tasks = Inr r"
  shows "set (taskSet r) = set (direct_names reg tasks) \<union> set (namespace_members reg tasks)"
    and "set (taskSet r) \<subseteq> {t. registered_task reg t}"
proof -
  from normalizeTaskSet_ordinary [OF assms(1,2)] assms(3)
  have none: "find (unknown_identifier reg) tasks = None"
    and r: "taskSet r = new_Set (direct_names reg tasks @ namespace_members reg tasks)"
    by (auto split: option.splits)
  from r show 1: "set (taskSet r) = set (direct_names reg tasks) \<union> set (namespace_members reg tasks)"
    by (simp add: set_new_Set)
  from none have "\<forall>t\<in>set tasks. \<not> unknown_identifier reg t"
    by (simp add: find_None_iff)
  then have "set (direct_names reg tasks) \<subseteq> {t. registered_task reg t}"
    by (auto simp: direct_names_def unknown_identifier_def)
  moreover have "set (namespace_members reg tasks) \<subseteq> {t. registered_task reg t}"
    by (auto simp: namespace_members_def registered_task_def intro: rev_image_eqI)
  ultimately show "set (taskSet r) \<subseteq> {t. registered_task reg t}"
    using 1 by blast
qed

lemma namespace_members_declare_namespace:
  assumes "k \<in> set (namespace_members reg tasks)"
  shows "\<exists>v n. (k, v) \<in> set (own_props (exportedTasks reg)) \<and> namespace v = Some n
               \<and> n \<in> set tasks \<and> registered_namespace reg n"
  using assms by (auto simp: namespace_members_def split: option.splits)


subsection \<open>The example registry\<close>

lemma demo_registry_built:
  "parseTaskFiles ''/proj/tasks''
     [(''demo.js'', [(''a'', task (Some ''g1'')), (''b'', task (Some ''g1'')), (''c'', task None)])]
   = Inr demo_registry"
  by code_simp

lemma demo_registry_ordinary: "ordinary_registry demo_registry"
  by code_simp

lemma demo_request_ordinary: "list_all plain_key [''c'', ''g1'']"
  by code_simp

lemma demo_order:
  "normalizeTaskSet demo_registry [''c'', ''g1'']
     = Inr \<lparr>taskSet = direct_names demo_registry [''c'', ''g1'']
                         @ namespace_members demo_registry [''c'', ''g1''],
            warned = True\<rparr>
   \<and> direct_names demo_registry [''c'', ''g1''] = [''c'']
   \<and> namespace_members demo_registry [''c'', ''g1''] = [''a'', ''b'']"
proof -
  have d: "direct_names demo_registry [''c'', ''g1''] = [''c'']" by code_simp
  have m: "namespace_members demo_registry [''c'', ''g1''] = [''a'', ''b'']" by code_simp
  have u: "find (unknown_identifier demo_registry) [''c'', ''g1''] = None" by code_simp
  have "distinct (direct_names demo_registry [''c'', ''g1'']
                  @ namespace_members demo_registry [''c'', ''g1''])"
    unfolding d m by simp
  from normalizeTaskSet_ordinary_order [OF demo_registry_ordinary demo_request_ordinary u this]
  show ?thesis unfolding d m by simp
qed


section \<open>Validation of the extension lists\<close>

text \<open>
  A boolean, a number, a string or an object as \<^verbatim>\<open>exts\<close> is rejected with the message
  that names the profile, provided the profiles before it pass.
\<close>

lemma validate_profile_non_sequence:
  assumes "map_of opts ''exts'' = Some x"
      and "x = JBool b \<or> x = JNumber n \<or> x = JString s \<or> x = JObject kvs"
  shows "validate_profile env ops fs (key, opts) = Inl (InvalidExts key)"
  using assms by (auto simp: validate_profile_def)

lemma validate_profiles_first_invalid:
  assumes "validate_profiles env ops fs ps = Inr ps'"
      and "validate_profile env ops fs kv = Inl f"
  shows "validate_profiles env ops fs (ps @ kv # rest) = Inl f"
  using assms(1)
proof (induction ps arbitrary: ps')
  case Nil
  with assms(2) show ?case by simp
next
  case (Cons p ps)
  then show ?case by (auto split: sum.splits)
qed

end
